theory Spec2Isabelle
  imports Complex_Main
begin

section \<open>JavaScript values and objects\<close>

text \<open>
  The component in \<^verbatim>\<open>src/App.tsx\<close> keeps two pieces of React state: the particle
  configuration and the connection status. The particle configuration is a plain object
  that is only ever read as a whole and rebuilt with the spread operator, so an object is
  modelled as a finite map from property names to values. A \<^verbatim>\<open>Partial<ParticleState>\<close>
  is such an object with any subset of the keys; TypeScript lets a key of a partial
  object be present with the value \<^verbatim>\<open>undefined\<close>, hence \<open>JUndefined\<close>.
\<close>

datatype jsval = JUndefined | JStr string | JNum real

type_synonym obj = "string \<rightharpoonup> jsval"

text \<open>\<^verbatim>\<open>{ ...a, ...b }\<close>: the own properties of \<open>a\<close>, then those of \<open>b\<close>; a key of \<open>b\<close> wins.\<close>

definition spread2 :: "obj \<Rightarrow> obj \<Rightarrow> obj" where
  "spread2 a b = a ++ b"

text \<open>Lines 13-19.\<close>

definition INITIAL_STATE :: obj where
  "INITIAL_STATE =
     [''shape'' \<mapsto> JStr ''sphere'',
      ''expansion'' \<mapsto> JNum 1.0,
      ''colorPalette'' \<mapsto> JStr ''neon'',
      ''speed'' \<mapsto> JNum 0.5,
      ''rotationSpeed'' \<mapsto> JNum 0.2]"

section \<open>The connection status\<close>

text \<open>
  \<^verbatim>\<open>LiveConnectionState\<close>, as the initial value of \<^verbatim>\<open>useState\<close> gives it (lines 23-27);
  \<^verbatim>\<open>error\<close> is a string or \<^verbatim>\<open>null\<close>.
\<close>

record LiveConnectionState =
  isConnected :: bool
  isStreaming :: bool
  error :: "string option"

section \<open>The session client\<close>

text \<open>
  \<^verbatim>\<open>LiveApiService\<close> is imported from \<^verbatim>\<open>./services/liveApiService\<close>, which is not among the
  sources. The component constructs it with its two callbacks (line 44) and calls
  \<^verbatim>\<open>connect\<close>, \<^verbatim>\<open>sendVideoFrame\<close> and \<^verbatim>\<open>disconnect\<close> on it. Its behaviour is taken from
  section 4.1 of the specification, where \<^verbatim>\<open>sendVideoFrame\<close> is called \<^verbatim>\<open>sendFrame\<close>.
\<close>

datatype client_state = Idle | Connecting | Active | Closed

datatype callback = OnStateUpdate obj | OnError string

datatype inbound = StateUpdate obj | ErrorMessage string

record client =
  phase :: client_state
  outbound :: "string list"

text \<open>Modelled from the spec: the client of a fresh \<^verbatim>\<open>LiveApiService\<close>: "Idle (initial), no
  handle"; nothing has been sent.\<close>

definition newClient :: client where
  "newClient = \<lparr>phase = Idle, outbound = []\<rparr>"

text \<open>Modelled from the spec: \<^verbatim>\<open>LiveApiService.connect\<close>, the call itself: "Idle to
  Connecting"; a Closed client "is reusable". A second call while Connecting or Active is
  left undefined by the specification, which asks for a rejection or a no-op; here it
  starts nothing new.\<close>

definition connect :: "client \<Rightarrow> client" where
  "connect c =
     (if phase c = Idle \<or> phase c = Closed then c\<lparr>phase := Connecting\<rparr> else c)"

text \<open>Modelled from the spec: the end of a successful handle establishment, "on success
  to Active".\<close>

definition established :: "client \<Rightarrow> client" where
  "established c = (if phase c = Connecting then c\<lparr>phase := Active\<rparr> else c)"

text \<open>Modelled from the spec: a transport error, "connection establishment or mid-session
  transport failure; surfaced via the error callback; forces the session to Closed".
  A client without a handle has no transport that could fail.\<close>

definition failed :: "string \<Rightarrow> client \<Rightarrow> client \<times> callback list" where
  "failed reason c =
     (if phase c = Connecting \<or> phase c = Active
      then (c\<lparr>phase := Closed\<rparr>, [OnError reason]) else (c, []))"

text \<open>Modelled from the spec: \<^verbatim>\<open>LiveApiService.sendVideoFrame\<close>, the specification's
  \<^verbatim>\<open>sendFrame\<close>: "legal only in Active; in any other state it is a no-op that does not
  raise an error"; "one call = at most one outbound unit of work". \<open>Inl\<close> would be a
  raised error, \<open>outbound\<close> lists the payloads handed to the transport.\<close>

definition sendFrame :: "string \<Rightarrow> client \<Rightarrow> string + client" where
  "sendFrame payload c =
     (if phase c = Active then Inr (c\<lparr>outbound := outbound c @ [payload]\<rparr>) else Inr c)"

text \<open>Modelled from the spec: the arrival of an inbound message: while Active, a partial
  update is "forwarded verbatim to the state-update callback" and an error message is
  "forwarded to the error callback and the session transitions to Closed"; outside
  Active inbound delivery has ceased.\<close>

definition deliver :: "inbound \<Rightarrow> client \<Rightarrow> client \<times> callback list" where
  "deliver m c =
     (if phase c = Active
      then (case m of
              StateUpdate u \<Rightarrow> (c, [OnStateUpdate u])
            | ErrorMessage reason \<Rightarrow> (c\<lparr>phase := Closed\<rparr>, [OnError reason]))
      else (c, []))"

text \<open>Modelled from the spec: \<^verbatim>\<open>LiveApiService.disconnect\<close>: "Active or Connecting to
  Closed, idempotently. Calling it from Idle or Closed is a safe no-op."\<close>

definition disconnect :: "client \<Rightarrow> client" where
  "disconnect c =
     (if phase c = Active \<or> phase c = Connecting then c\<lparr>phase := Closed\<rparr> else c)"

section \<open>The component and its surroundings\<close>

text \<open>
  The value a rejected promise carries into the \<^verbatim>\<open>catch\<close> of \<^verbatim>\<open>startStream\<close>. The code reads
  only its \<^verbatim>\<open>message\<close>, which is a string or missing (\<open>None\<close>). The browser rejects
  \<^verbatim>\<open>getUserMedia\<close> and \<^verbatim>\<open>play\<close> with a \<^verbatim>\<open>DOMException\<close> or a \<^verbatim>\<open>TypeError\<close>; a rejection with
  \<^verbatim>\<open>null\<close> or \<^verbatim>\<open>undefined\<close> is not part of the model.
\<close>

record js_error =
  message :: "string option"

record video =
  srcObject :: "nat option"

type_synonym blob = "nat list"

text \<open>
  The three \<^verbatim>\<open>await\<close>s of one \<^verbatim>\<open>startStream\<close> invocation (lines 55, 63, 66), and the two
  pending stages of one captured frame (the \<^verbatim>\<open>toBlob\<close> callback of line 76 and the
  \<^verbatim>\<open>await blobToBase64\<close> of line 78).
\<close>

datatype pc = AwaitMedia | AwaitPlay | AwaitConnect | Finished

datatype job = AwaitBlob | AwaitBase64 | JobDone

text \<open>
  Calls to collaborators whose arguments matter: \<open>GetUserMedia width height audio\<close>,
  \<open>DrawImage dx dy dw dh\<close>, \<open>ToBlob type quality\<close>, \<open>SetInterval period\<close>.
\<close>

datatype call =
    GetUserMedia nat nat bool
  | Play
  | SetInterval nat
  | DrawImage nat nat nat nat
  | ToBlob string real
  | BlobToBase64 blob
  | SendVideoFrame string

text \<open>
  Neither of the two \<^verbatim>\<open>async\<close> callbacks of the frame timer has a \<^verbatim>\<open>try\<close>: an error raised
  inside the interval callback (lines 72-82) or inside the \<^verbatim>\<open>toBlob\<close> callback (lines 76-80)
  rejects the promise that callback returns, and neither \<^verbatim>\<open>setInterval\<close> nor \<^verbatim>\<open>toBlob\<close> looks
  at it. Such a rejection is recorded with the callback it comes from.
\<close>

datatype origin = FromTimerCallback | FromBlobCallback

text \<open>
  The React state (\<open>particleState\<close>, \<open>connection\<close>), the five refs of lines 29-33, and
  what surrounds the component: the interval timers that are running, the media streams
  whose tracks are live, the \<^verbatim>\<open>startStream\<close> invocations and frames in flight, and three
  histories: the collaborator calls made, the callbacks invoked and the rejections that
  nothing handled.
\<close>

record app =
  particleState :: obj
  connection :: LiveConnectionState
  videoRef :: "video option"
  canvasRef :: "unit option"
  liveApiRef :: "client option"
  streamRef :: "nat option"
  frameIntervalRef :: "nat option"
  timers :: "nat set"
  nextTimer :: nat
  liveStreams :: "nat set"
  nextStream :: nat
  tasks :: "pc list"
  jobs :: "job list"
  calls :: "call list"
  fired :: "callback list"
  unhandled :: "origin list"

text \<open>
  The component once mounted: the initial values of \<^verbatim>\<open>useState\<close>, the \<^verbatim>\<open>video\<close> and
  \<^verbatim>\<open>canvas\<close> elements in their refs, and the service that the effect of lines 43-49 has
  constructed. \<^verbatim>\<open>window.setInterval\<close> returns positive handles. The model follows the
  component while it is mounted.
\<close>

definition mounted :: app where
  "mounted =
     \<lparr>particleState = INITIAL_STATE,
      connection = \<lparr>isConnected = False, isStreaming = False, error = None\<rparr>,
      videoRef = Some \<lparr>srcObject = None\<rparr>,
      canvasRef = Some (),
      liveApiRef = Some newClient,
      streamRef = None,
      frameIntervalRef = None,
      timers = {},
      nextTimer = 1,
      liveStreams = {},
      nextStream = 0,
      tasks = [],
      jobs = [],
      calls = [],
      fired = [],
      unhandled = []\<rparr>"

subsection \<open>The two callbacks\<close>

text \<open>Lines 35-37: \<^verbatim>\<open>setParticleState(prev => ({ ...prev, ...update }))\<close>.\<close>

definition handleStateUpdate :: "obj \<Rightarrow> app \<Rightarrow> app" where
  "handleStateUpdate update s = s\<lparr>particleState := spread2 (particleState s) update\<rparr>"

text \<open>
  Lines 39-41:
  \<^verbatim>\<open>setConnection(prev => ({ ...prev, error, isConnected: false, isStreaming: false }))\<close>.
\<close>

definition handleError :: "string \<Rightarrow> app \<Rightarrow> app" where
  "handleError err s =
     s\<lparr>connection := (connection s)\<lparr>error := Some err, isConnected := False,
                                     isStreaming := False\<rparr>\<rparr>"

text \<open>An invocation of one of the two callbacks, recorded in \<open>fired\<close>.\<close>

definition invoke :: "callback \<Rightarrow> app \<Rightarrow> app" where
  "invoke cb s =
     (case cb of
        OnStateUpdate u \<Rightarrow> handleStateUpdate u (s\<lparr>fired := fired s @ [cb]\<rparr>)
      | OnError e \<Rightarrow> handleError e (s\<lparr>fired := fired s @ [cb]\<rparr>))"

definition invokeAll :: "callback list \<Rightarrow> app \<Rightarrow> app" where
  "invokeAll cbs s = foldl (\<lambda>s' cb. invoke cb s') s cbs"

text \<open>
  React applies queued updater functions in the order of the calls, each to the result
  of the one before.
\<close>

definition applyUpdates :: "obj list \<Rightarrow> app \<Rightarrow> app" where
  "applyUpdates us s = foldl (\<lambda>s' u. handleStateUpdate u s') s us"

text \<open>
  The specification's reading of the same sequence, written from its words: the updates
  that specify the field \<open>k\<close>, and the value of the last of them, or the initial value
  when there is none.
\<close>

definition specifying :: "string \<Rightarrow> obj list \<Rightarrow> obj list" where
  "specifying k us = filter (\<lambda>u. u k \<noteq> None) us"

definition last_write_wins :: "obj list \<Rightarrow> obj \<Rightarrow> obj" where
  "last_write_wins us s0 k =
     (if specifying k us = [] then s0 k else last (specifying k us) k)"

subsection \<open>Starting a session\<close>

text \<open>
  \<^verbatim>\<open>startStream\<close> (lines 51-88) is an \<^verbatim>\<open>async\<close> function: it runs up to its first
  \<^verbatim>\<open>await\<close> at the click and resumes when the awaited promise settles. Each piece between
  two \<^verbatim>\<open>await\<close>s is one function here; the invocation is entry \<open>i\<close> of \<open>tasks\<close>.

  Lines 53-58, up to \<^verbatim>\<open>await getUserMedia\<close>.
\<close>

definition startStream_begin :: "app \<Rightarrow> app" where
  "startStream_begin s =
     s\<lparr>connection := \<lparr>isConnected = False, isStreaming = True, error = None\<rparr>,
       calls := calls s @ [GetUserMedia 320 240 True],
       tasks := tasks s @ [AwaitMedia]\<rparr>"

text \<open>Line 66, \<^verbatim>\<open>await liveApiRef.current?.connect()\<close>: the call, when there is a service.\<close>

definition startStream_connect :: "nat \<Rightarrow> app \<Rightarrow> app" where
  "startStream_connect i s =
     s\<lparr>liveApiRef := map_option connect (liveApiRef s),
       tasks := (tasks s)[i := AwaitConnect]\<rparr>"

text \<open>
  Lines 60-64, once \<^verbatim>\<open>getUserMedia\<close> has resolved with a new stream: the stream goes to
  \<^verbatim>\<open>streamRef\<close>; with a video element the function awaits \<^verbatim>\<open>play()\<close>, without one it goes
  on to line 66.
\<close>

definition startStream_media :: "nat \<Rightarrow> app \<Rightarrow> app" where
  "startStream_media i s =
     (let sid = nextStream s;
          s1 = s\<lparr>streamRef := Some sid,
                 liveStreams := insert sid (liveStreams s),
                 nextStream := sid + 1\<rparr>
      in case videoRef s1 of
           None \<Rightarrow> startStream_connect i s1
         | Some v \<Rightarrow> s1\<lparr>videoRef := Some (v\<lparr>srcObject := Some sid\<rparr>),
                         calls := calls s1 @ [Play],
                         tasks := (tasks s1)[i := AwaitPlay]\<rparr>)"

text \<open>
  Lines 67-83, once \<^verbatim>\<open>connect()\<close> has resolved: \<^verbatim>\<open>isConnected\<close> becomes true and, with a
  canvas context and a video element, the frame timer starts with period 500. The canvas
  is asked for no other kind of context, so \<^verbatim>\<open>getContext('2d')\<close> yields one whenever there
  is a canvas.
\<close>

definition startStream_connected :: "nat \<Rightarrow> app \<Rightarrow> app" where
  "startStream_connected i s =
     (let s1 = s\<lparr>connection := (connection s)\<lparr>isConnected := True\<rparr>,
                 tasks := (tasks s)[i := Finished]\<rparr>
      in if canvasRef s1 \<noteq> None \<and> videoRef s1 \<noteq> None
         then s1\<lparr>frameIntervalRef := Some (nextTimer s1),
                 timers := insert (nextTimer s1) (timers s1),
                 nextTimer := nextTimer s1 + 1,
                 calls := calls s1 @ [SetInterval 500]\<rparr>
         else s1)"

text \<open>Line 86: \<^verbatim>\<open>err.message || 'Failed to access camera'\<close>; an empty string is falsy.\<close>

definition errorText :: "js_error \<Rightarrow> string" where
  "errorText err =
     (case message err of
        None \<Rightarrow> ''Failed to access camera''
      | Some m \<Rightarrow> if m = [] then ''Failed to access camera'' else m)"

text \<open>Lines 85-87, the \<^verbatim>\<open>catch\<close>: whichever \<^verbatim>\<open>await\<close> rejected, \<^verbatim>\<open>handleError\<close> is called.\<close>

definition startStream_catch :: "nat \<Rightarrow> js_error \<Rightarrow> app \<Rightarrow> app" where
  "startStream_catch i err s =
     invoke (OnError (errorText err)) (s\<lparr>tasks := (tasks s)[i := Finished]\<rparr>)"

subsection \<open>Stopping\<close>

text \<open>
  \<^verbatim>\<open>stopStream\<close> (lines 90-97). \<^verbatim>\<open>if (frameIntervalRef.current)\<close> is false for
  \<^verbatim>\<open>null\<close> and for the number 0; no ref is reset.
\<close>

definition stopStream :: "app \<Rightarrow> app" where
  "stopStream s =
     (let s1 = (case frameIntervalRef s of
                  None \<Rightarrow> s
                | Some t \<Rightarrow> if t \<noteq> 0 then s\<lparr>timers := timers s - {t}\<rparr> else s);
          s2 = (case streamRef s1 of
                  None \<Rightarrow> s1
                | Some sid \<Rightarrow> s1\<lparr>liveStreams := liveStreams s1 - {sid}\<rparr>);
          s3 = s2\<lparr>liveApiRef := map_option disconnect (liveApiRef s2)\<rparr>
      in s3\<lparr>connection := \<lparr>isConnected = False, isStreaming = False, error = None\<rparr>\<rparr>)"

subsection \<open>The frame timer\<close>

text \<open>
  The interval callback (lines 72-82). \<open>drawOk\<close> says whether \<^verbatim>\<open>drawImage\<close> returns; when
  it throws, line 76 is not reached and the promise of the \<^verbatim>\<open>async\<close> callback is rejected.
\<close>

definition tick :: "bool \<Rightarrow> app \<Rightarrow> app" where
  "tick drawOk s =
     (if videoRef s = None \<or> liveApiRef s = None then s
      else let s1 = s\<lparr>calls := calls s @ [DrawImage 0 0 320 240]\<rparr>
           in if \<not> drawOk then s1\<lparr>unhandled := unhandled s1 @ [FromTimerCallback]\<rparr>
              else case canvasRef s1 of
                     None \<Rightarrow> s1
                   | Some _ \<Rightarrow> s1\<lparr>calls := calls s1 @ [ToBlob ''image/jpeg'' 0.6],
                                   jobs := jobs s1 @ [AwaitBlob]\<rparr>)"

text \<open>The \<^verbatim>\<open>toBlob\<close> callback (lines 76-80): a null blob ends the frame.\<close>

definition blobCallback :: "nat \<Rightarrow> blob option \<Rightarrow> app \<Rightarrow> app" where
  "blobCallback j b s =
     (case b of
        None \<Rightarrow> s\<lparr>jobs := (jobs s)[j := JobDone]\<rparr>
      | Some bl \<Rightarrow> s\<lparr>calls := calls s @ [BlobToBase64 bl],
                      jobs := (jobs s)[j := AwaitBase64]\<rparr>)"

text \<open>
  Line 79, once \<^verbatim>\<open>blobToBase64\<close> has resolved:
  \<^verbatim>\<open>await liveApiRef.current?.sendVideoFrame(base64)\<close>. Nothing follows the \<^verbatim>\<open>await\<close>; an
  error raised by the call would reject the promise of the \<^verbatim>\<open>toBlob\<close> callback.
\<close>

definition frameEncoded :: "nat \<Rightarrow> string \<Rightarrow> app \<Rightarrow> app" where
  "frameEncoded j base64 s =
     (case liveApiRef s of
        None \<Rightarrow> s\<lparr>jobs := (jobs s)[j := JobDone]\<rparr>
      | Some c \<Rightarrow>
          (case sendFrame base64 c of
             Inl _ \<Rightarrow> s\<lparr>calls := calls s @ [SendVideoFrame base64],
                          jobs := (jobs s)[j := JobDone],
                          unhandled := unhandled s @ [FromBlobCallback]\<rparr>
           | Inr c' \<Rightarrow> s\<lparr>liveApiRef := Some c',
                           calls := calls s @ [SendVideoFrame base64],
                           jobs := (jobs s)[j := JobDone]\<rparr>))"

text \<open>
  Line 78, when \<^verbatim>\<open>blobToBase64\<close> rejects: the \<^verbatim>\<open>await\<close> throws inside the \<^verbatim>\<open>toBlob\<close> callback,
  line 79 is not reached and the promise of the callback is rejected.
\<close>

definition conversionFailed :: "nat \<Rightarrow> app \<Rightarrow> app" where
  "conversionFailed j s =
     s\<lparr>jobs := (jobs s)[j := JobDone], unhandled := unhandled s @ [FromBlobCallback]\<rparr>"

subsection \<open>Events\<close>

text \<open>
  What the transport does to the client: the handle is established, the transport
  fails, a message arrives.
\<close>

datatype transport_event = Established | Failed string | Message inbound

text \<open>
  Everything that makes code of the component run: a click on the button that is
  rendered, the settling of a promise that \<^verbatim>\<open>startStream\<close> invocation \<open>i\<close> awaits, a tick
  of timer \<open>t\<close>, the \<^verbatim>\<open>toBlob\<close> callback and the end of \<^verbatim>\<open>blobToBase64\<close> for frame \<open>j\<close>, and a
  transport event, on which the client may call back.
\<close>

datatype event =
    ClickStart
  | ClickStop
  | MediaResolved nat
  | MediaRejected nat js_error
  | PlayResolved nat
  | PlayRejected nat js_error
  | ConnectResolved nat
  | ConnectRejected nat js_error
  | Tick nat bool
  | BlobReady nat "blob option"
  | Base64Resolved nat string
  | Base64Rejected nat
  | Transport transport_event

definition awaiting :: "nat \<Rightarrow> pc \<Rightarrow> app \<Rightarrow> bool" where
  "awaiting i p s = (i < length (tasks s) \<and> tasks s ! i = p)"

definition pending :: "nat \<Rightarrow> job \<Rightarrow> app \<Rightarrow> bool" where
  "pending j p s = (j < length (jobs s) \<and> jobs s ! j = p)"

definition transport :: "transport_event \<Rightarrow> app \<Rightarrow> app" where
  "transport ev s =
     (case liveApiRef s of
        None \<Rightarrow> s
      | Some c \<Rightarrow>
          (case ev of
             Established \<Rightarrow> s\<lparr>liveApiRef := Some (established c)\<rparr>
           | Failed reason \<Rightarrow>
               invokeAll (snd (failed reason c)) (s\<lparr>liveApiRef := Some (fst (failed reason c))\<rparr>)
           | Message m \<Rightarrow>
               invokeAll (snd (deliver m c)) (s\<lparr>liveApiRef := Some (fst (deliver m c))\<rparr>)))"

text \<open>
  One event. The Start button is rendered while \<^verbatim>\<open>isStreaming\<close> is false and the Stop
  button while it is true (lines 131-145); an event that finds nothing waiting for it
  changes nothing. When the promise of \<^verbatim>\<open>connect()\<close> resolves, line 67 runs whatever the
  state of the client is: the code does not look at it.
\<close>

fun step :: "event \<Rightarrow> app \<Rightarrow> app" where
  "step ClickStart s = (if isStreaming (connection s) then s else startStream_begin s)"
| "step ClickStop s = (if isStreaming (connection s) then stopStream s else s)"
| "step (MediaResolved i) s = (if awaiting i AwaitMedia s then startStream_media i s else s)"
| "step (MediaRejected i err) s =
     (if awaiting i AwaitMedia s then startStream_catch i err s else s)"
| "step (PlayResolved i) s = (if awaiting i AwaitPlay s then startStream_connect i s else s)"
| "step (PlayRejected i err) s =
     (if awaiting i AwaitPlay s then startStream_catch i err s else s)"
| "step (ConnectResolved i) s =
     (if awaiting i AwaitConnect s then startStream_connected i s else s)"
| "step (ConnectRejected i err) s =
     (if awaiting i AwaitConnect s then startStream_catch i err s else s)"
| "step (Tick t drawOk) s = (if t \<in> timers s then tick drawOk s else s)"
| "step (BlobReady j b) s = (if pending j AwaitBlob s then blobCallback j b s else s)"
| "step (Base64Resolved j base64) s =
     (if pending j AwaitBase64 s then frameEncoded j base64 s else s)"
| "step (Base64Rejected j) s = (if pending j AwaitBase64 s then conversionFailed j s else s)"
| "step (Transport ev) s = transport ev s"

definition run :: "event list \<Rightarrow> app \<Rightarrow> app" where
  "run es s = foldl (\<lambda>s' e. step e s') s es"

subsection \<open>Observations\<close>

text \<open>The payloads of the \<^verbatim>\<open>sendVideoFrame\<close> calls made so far, in order.\<close>

definition sentFrames :: "app \<Rightarrow> string list" where
  "sentFrames s = concat (map (\<lambda>c. case c of SendVideoFrame b \<Rightarrow> [b] | _ \<Rightarrow> []) (calls s))"

text \<open>The client of the service holds an established handle.\<close>

definition sessionActive :: "app \<Rightarrow> bool" where
  "sessionActive s = (case liveApiRef s of None \<Rightarrow> False | Some c \<Rightarrow> phase c = Active)"

text \<open>The state of the client, when there is a service.\<close>

definition clientPhase :: "app \<Rightarrow> client_state option" where
  "clientPhase s = map_option phase (liveApiRef s)"

text \<open>
  The promise of \<^verbatim>\<open>connect()\<close> resolves at a moment when the client is Active (without a
  service, line 66 awaits \<^verbatim>\<open>undefined\<close>, which resolves); and a sequence of events from a
  state in which every resolution of an awaited \<^verbatim>\<open>connect()\<close> comes at such a moment. The
  specification has "on success to Active" and says nothing about the promise of a
  \<^verbatim>\<open>connect()\<close> whose client was disconnected while Connecting.
\<close>

definition connectResolves :: "app \<Rightarrow> bool" where
  "connectResolves s = (case liveApiRef s of None \<Rightarrow> True | Some c \<Rightarrow> phase c = Active)"

fun resolvesWhileActive :: "event list \<Rightarrow> app \<Rightarrow> bool" where
  "resolvesWhileActive [] s = True"
| "resolvesWhileActive (e # es) s =
     ((case e of
         ConnectResolved i \<Rightarrow> (if awaiting i AwaitConnect s then connectResolves s else True)
       | _ \<Rightarrow> True)
      \<and> resolvesWhileActive es (step e s))"

text \<open>No frame is in flight: no \<^verbatim>\<open>toBlob\<close> callback and no conversion is outstanding.\<close>

definition noFramePending :: "app \<Rightarrow> bool" where
  "noFramePending s = list_all (\<lambda>p. p = JobDone) (jobs s)"

text \<open>No \<^verbatim>\<open>startStream\<close> invocation is waiting at an \<^verbatim>\<open>await\<close>.\<close>

definition settled :: "app \<Rightarrow> bool" where
  "settled s = list_all (\<lambda>p. p = Finished) (tasks s)"

text \<open>
  What one tick of the timer leads to: the frame is sent with the given base64 text, or
  \<^verbatim>\<open>drawImage\<close> throws, or \<^verbatim>\<open>toBlob\<close> yields null, or \<^verbatim>\<open>blobToBase64\<close> rejects. \<open>tickEvents\<close>
  lists the events of such a tick of timer \<open>t\<close> whose frame is entry \<open>j\<close> of \<open>jobs\<close>, and
  \<open>runTicks\<close> runs one tick after the other, each to its end.
\<close>

datatype tick_outcome = Sent blob string | CaptureFailed | EncodeFailed | ConvertFailed blob

fun tickEvents :: "nat \<Rightarrow> nat \<Rightarrow> tick_outcome \<Rightarrow> event list" where
  "tickEvents t j (Sent bl base64) = [Tick t True, BlobReady j (Some bl), Base64Resolved j base64]"
| "tickEvents t j CaptureFailed = [Tick t False]"
| "tickEvents t j EncodeFailed = [Tick t True, BlobReady j None]"
| "tickEvents t j (ConvertFailed bl) = [Tick t True, BlobReady j (Some bl), Base64Rejected j]"

definition runTick :: "nat \<Rightarrow> tick_outcome \<Rightarrow> app \<Rightarrow> app" where
  "runTick t out s = run (tickEvents t (length (jobs s)) out) s"

definition runTicks :: "nat \<Rightarrow> tick_outcome list \<Rightarrow> app \<Rightarrow> app" where
  "runTicks t outs s = foldl (\<lambda>s' out. runTick t out s') s outs"

definition framesOf :: "tick_outcome list \<Rightarrow> string list" where
  "framesOf outs = concat (map (\<lambda>out. case out of Sent bl b \<Rightarrow> [b] | _ \<Rightarrow> []) outs)"

text \<open>Timer \<open>t\<close> is running and its callback finds what it needs (line 73 and line 76).\<close>

definition capturing :: "nat \<Rightarrow> app \<Rightarrow> bool" where
  "capturing t s =
     (t \<in> timers s \<and> videoRef s \<noteq> None \<and> canvasRef s \<noteq> None \<and> liveApiRef s \<noteq> None)"

text \<open>
  The constants the specification prescribes, written from its words: "camera resolution
  (320x240), frame cadence (500 ms), and JPEG-equivalent quality (0.6)". A call that
  carries none of them is not constrained.
\<close>

definition prescribed :: "call \<Rightarrow> bool" where
  "prescribed c =
     (case c of
        GetUserMedia w h a \<Rightarrow> w = 320 \<and> h = 240
      | SetInterval period \<Rightarrow> period = 500
      | DrawImage dx dy dw dh \<Rightarrow> dw = 320 \<and> dh = 240
      | ToBlob ty quality \<Rightarrow> ty = ''image/jpeg'' \<and> quality = 0.6
      | _ \<Rightarrow> True)"

subsection \<open>A session\<close>

text \<open>
  The events of an undisturbed start: the click, the camera stream, the playing video,
  the established handle and the resolved \<^verbatim>\<open>connect()\<close>; and the component after them,
  with the frame timer running.
\<close>

definition startedSession :: "event list" where
  "startedSession =
     [ClickStart, MediaResolved 0, PlayResolved 0, Transport Established, ConnectResolved 0]"

definition streaming :: app where
  "streaming = run startedSession mounted"

section \<open>Running the model\<close>

text \<open>
  The last event of a run, and the component at the moment the frame timer has started.
\<close>

lemma run_snoc: "run (es @ [e]) s = step e (run es s)"
  by (simp add: run_def)

lemma streaming_eq:
  "streaming =
     \<lparr>particleState = INITIAL_STATE,
      connection = \<lparr>isConnected = True, isStreaming = True, error = None\<rparr>,
      videoRef = Some \<lparr>srcObject = Some 0\<rparr>,
      canvasRef = Some (),
      liveApiRef = Some \<lparr>phase = Active, outbound = []\<rparr>,
      streamRef = Some 0,
      frameIntervalRef = Some 1,
      timers = {1},
      nextTimer = 2,
      liveStreams = {0},
      nextStream = 1,
      tasks = [Finished],
      jobs = [],
      calls = [GetUserMedia 320 240 True, Play, SetInterval 500],
      fired = [],
      unhandled = []\<rparr>"
  by (simp add: streaming_def startedSession_def run_def mounted_def newClient_def
      startStream_begin_def awaiting_def startStream_media_def startStream_connect_def
      connect_def transport_def established_def startStream_connected_def Let_def)

section \<open>Merging partial updates\<close>

lemma applyUpdates_snoc: "applyUpdates (us @ [u]) s = handleStateUpdate u (applyUpdates us s)"
  by (simp add: applyUpdates_def)

lemma last_write_wins_snoc:
  "last_write_wins (us @ [u]) s0 k =
     (case u k of None \<Rightarrow> last_write_wins us s0 k | Some v \<Rightarrow> Some v)"
  by (cases "u k") (simp_all add: last_write_wins_def specifying_def)

lemma last_write_wins_spread: "last_write_wins (us @ [u]) s0 = spread2 (last_write_wins us s0) u"
  by (rule ext) (simp add: last_write_wins_snoc spread2_def map_add_def)

lemma applyUpdates_eq: "applyUpdates us s = s\<lparr>particleState := last_write_wins us (particleState s)\<rparr>"
proof (induction us rule: rev_induct)
  case Nil
  have "last_write_wins [] (particleState s) = particleState s"
    by (rule ext) (simp add: last_write_wins_def specifying_def)
  then show ?case by (simp add: applyUpdates_def)
next
  case (snoc u us)
  show ?case
    by (simp add: applyUpdates_snoc snoc.IH handleStateUpdate_def last_write_wins_spread)
qed

lemma last_write_wins_dom: "dom s0 \<subseteq> dom (last_write_wins us s0)"
proof (induction us rule: rev_induct)
  case Nil
  show ?case by (auto simp: last_write_wins_def specifying_def)
next
  case (snoc u us)
  then show ?case by (auto simp: last_write_wins_spread spread2_def)
qed

text \<open>
  C1. For every initial state and every finite sequence of partial updates handed to
  \<^verbatim>\<open>handleStateUpdate\<close>, the resulting particle state is the initial one overwritten field
  by field: each field holds the value of the last update that specified it, or its
  initial value when no update did; nothing else of the component changes, and no field
  of the initial state is deleted.
\<close>

theorem handleStateUpdate_last_write_wins:
  "applyUpdates us s = s\<lparr>particleState := last_write_wins us (particleState s)\<rparr>
   \<and> dom (particleState s) \<subseteq> dom (particleState (applyUpdates us s))"
  by (simp add: applyUpdates_eq last_write_wins_dom)

text \<open>
  Three updates on the mounted component: \<open>shape\<close> is written twice and the later value
  stays, \<open>colorPalette\<close> is never written and keeps its initial value, \<open>rotationSpeed\<close> is
  still there.
\<close>

theorem handleStateUpdate_last_write_wins_witness:
  "particleState (applyUpdates [[''shape'' \<mapsto> JStr ''heart''],
                               [''speed'' \<mapsto> JNum 2, ''shape'' \<mapsto> JStr ''helix''],
                               [''expansion'' \<mapsto> JUndefined]] mounted) ''shape''
     = Some (JStr ''helix'')
   \<and> particleState (applyUpdates [[''shape'' \<mapsto> JStr ''heart''],
                               [''speed'' \<mapsto> JNum 2, ''shape'' \<mapsto> JStr ''helix''],
                               [''expansion'' \<mapsto> JUndefined]] mounted) ''colorPalette''
     = Some (JStr ''neon'')
   \<and> ''rotationSpeed'' \<in> dom (particleState (applyUpdates
                              [[''shape'' \<mapsto> JStr ''heart''],
                               [''speed'' \<mapsto> JNum 2, ''shape'' \<mapsto> JStr ''helix''],
                               [''expansion'' \<mapsto> JUndefined]] mounted))"
proof -
  let ?us = "[[''shape'' \<mapsto> JStr ''heart''],
              [''speed'' \<mapsto> JNum 2, ''shape'' \<mapsto> JStr ''helix''],
              [''expansion'' \<mapsto> JUndefined]]"
  note t = handleStateUpdate_last_write_wins [of ?us mounted]
  from t have "particleState (applyUpdates ?us mounted)
                 = particleState (mounted\<lparr>particleState := last_write_wins ?us (particleState mounted)\<rparr>)"
    by (rule conjunct1 [THEN arg_cong])
  then have eq: "particleState (applyUpdates ?us mounted) = last_write_wins ?us INITIAL_STATE"
    by (simp add: mounted_def)
  have 1: "last_write_wins ?us INITIAL_STATE ''shape'' = Some (JStr ''helix'')"
    by (simp add: last_write_wins_def specifying_def)
  have 2: "last_write_wins ?us INITIAL_STATE ''colorPalette'' = Some (JStr ''neon'')"
    by (simp add: last_write_wins_def specifying_def INITIAL_STATE_def)
  have "''rotationSpeed'' \<in> dom (particleState mounted)"
    by (simp add: mounted_def INITIAL_STATE_def)
  with t have 3: "''rotationSpeed'' \<in> dom (particleState (applyUpdates ?us mounted))"
    by blast
  from eq 1 2 3 show ?thesis by simp
qed

section \<open>Frames outside an active session\<close>

text \<open>
  C2. In every state of the session client other than Active (Idle, Connecting or
  Closed), \<open>sendFrame\<close> with any payload is a no-op: it returns without raising, and the
  client it returns is the one it was given, state and outbound list alike.
\<close>

theorem sendFrame_outside_Active:
  "phase c \<noteq> Active \<Longrightarrow> sendFrame payload c = Inr c"
  by (simp add: sendFrame_def)

text \<open>
  A fresh client (Idle), a connecting one and a closed one.
\<close>

theorem sendFrame_outside_Active_witness:
  "phase newClient \<noteq> Active \<and> sendFrame ''frame'' newClient = Inr newClient
   \<and> sendFrame ''frame'' (connect newClient) = Inr (connect newClient)
   \<and> sendFrame ''frame'' (disconnect (connect newClient)) = Inr (disconnect (connect newClient))"
  using sendFrame_outside_Active [of newClient "''frame''"]
    sendFrame_outside_Active [of "connect newClient" "''frame''"]
    sendFrame_outside_Active [of "disconnect (connect newClient)" "''frame''"]
  by (simp add: newClient_def connect_def disconnect_def)

section \<open>Stopping\<close>

lemma disconnect_idem: "disconnect (disconnect c) = disconnect c"
  by (simp add: disconnect_def)

lemma disconnect_phase: "phase (disconnect c) = (if phase c = Idle then Idle else Closed)"
  by (cases "phase c") (simp_all add: disconnect_def)

lemma stopStream_idem: "stopStream (stopStream s) = stopStream s"
  by (cases "frameIntervalRef s"; cases "streamRef s"; cases "liveApiRef s")
     (simp_all add: stopStream_def disconnect_idem)

lemma stopStream_connection:
  "connection (stopStream s) = \<lparr>isConnected = False, isStreaming = False, error = None\<rparr>"
  by (simp add: stopStream_def Let_def)

lemma stopStream_fired: "fired (stopStream s) = fired s"
  by (simp add: stopStream_def Let_def split: option.split)

lemma stopStream_liveApiRef: "liveApiRef (stopStream s) = map_option disconnect (liveApiRef s)"
  by (simp add: stopStream_def Let_def split: option.split)

lemma stopStream_particleState: "particleState (stopStream s) = particleState s"
  by (simp add: stopStream_def Let_def split: option.split)

lemma stopStream_tasks: "tasks (stopStream s) = tasks s"
  by (simp add: stopStream_def Let_def split: option.split)

lemma stopStream_cancels:
  "frameIntervalRef s = Some t \<Longrightarrow> t \<noteq> 0 \<Longrightarrow> t \<notin> timers (stopStream s)"
  by (simp add: stopStream_def Let_def split: option.split)

text \<open>
  C7. \<^verbatim>\<open>stopStream\<close> is idempotent. From every state of the component, whatever the state
  of the session client, it yields the reset connection status and a client that is
  Closed (or still Idle when no session was ever started); a second call right after the
  first changes nothing at all, and neither call invokes a callback.
\<close>

theorem stopStream_idempotent:
  "stopStream (stopStream s) = stopStream s
   \<and> connection (stopStream s) = \<lparr>isConnected = False, isStreaming = False, error = None\<rparr>
   \<and> map_option phase (liveApiRef (stopStream s))
       = map_option (\<lambda>c. if phase c = Idle then Idle else Closed) (liveApiRef s)
   \<and> fired (stopStream (stopStream s)) = fired s"
  by (simp add: stopStream_idem stopStream_connection stopStream_fired stopStream_liveApiRef
      option.map_comp comp_def disconnect_phase)

text \<open>
  Stopping the running session: the timer and the tracks end, the client is Closed, and
  stopping again gives the same component.
\<close>

theorem stopStream_idempotent_witness:
  "timers streaming = {1} \<and> liveStreams streaming = {0} \<and> sessionActive streaming
   \<and> timers (stopStream streaming) = {} \<and> liveStreams (stopStream streaming) = {}
   \<and> map_option phase (liveApiRef (stopStream streaming)) = Some Closed
   \<and> stopStream (stopStream streaming) = stopStream streaming"
proof -
  have 1: "timers streaming = {1}" "liveStreams streaming = {0}" "sessionActive streaming"
    "timers (stopStream streaming) = {}" "liveStreams (stopStream streaming) = {}"
    by (simp_all add: streaming_eq stopStream_def sessionActive_def)
  have l: "map_option (\<lambda>c. if phase c = Idle then Idle else Closed) (liveApiRef streaming)
             = Some Closed"
    by (simp add: streaming_eq)
  note t = stopStream_idempotent [of streaming]
  from t have 2: "stopStream (stopStream streaming) = stopStream streaming"
    by (rule conjunct1)
  from t l have 3: "map_option phase (liveApiRef (stopStream streaming)) = Some Closed"
    by simp
  from 1 2 3 show ?thesis by blast
qed

section \<open>The frame timer\<close>

lemma sentFrames_append [simp]:
  "sentFrames (s\<lparr>calls := calls s @ cs\<rparr>)
     = sentFrames s @ concat (map (\<lambda>c. case c of SendVideoFrame b \<Rightarrow> [b] | _ \<Rightarrow> []) cs)"
  by (simp add: sentFrames_def)

lemma invoke_sentFrames: "sentFrames (invoke cb s) = sentFrames s"
  by (cases cb) (simp_all add: invoke_def handleError_def handleStateUpdate_def sentFrames_def)

lemma invokeAll_sentFrames: "sentFrames (invokeAll cbs s) = sentFrames s"
  by (induction cbs rule: rev_induct) (simp_all add: invokeAll_def invoke_sentFrames)

lemma step_sends_only_converted:
  assumes "\<forall>j b. e \<noteq> Base64Resolved j b"
  shows "sentFrames (step e s) = sentFrames s"
proof (cases e)
  case (Transport ev)
  then show ?thesis
    by (cases ev; cases "liveApiRef s")
       (simp_all add: transport_def invokeAll_sentFrames, simp_all add: sentFrames_def)
next
  case (Base64Resolved j b)
  with assms show ?thesis by simp
qed (simp_all add: sentFrames_def startStream_begin_def stopStream_def startStream_media_def
       startStream_connect_def startStream_connected_def startStream_catch_def invoke_def
       handleError_def tick_def blobCallback_def conversionFailed_def Let_def
     split: option.split)

lemma capture_failure:
  assumes "capturing t s"
  shows "step (Tick t False) s
           = s\<lparr>calls := calls s @ [DrawImage 0 0 320 240],
               unhandled := unhandled s @ [FromTimerCallback]\<rparr>"
  using assms by (auto simp: capturing_def tick_def)

lemma encode_failure:
  assumes "pending j AwaitBlob s"
  shows "step (BlobReady j None) s = s\<lparr>jobs := (jobs s)[j := JobDone]\<rparr>"
  using assms by (simp add: blobCallback_def)

lemma conversion_failure:
  assumes "pending j AwaitBase64 s"
  shows "step (Base64Rejected j) s
           = s\<lparr>jobs := (jobs s)[j := JobDone],
               unhandled := unhandled s @ [FromBlobCallback]\<rparr>"
  using assms by (simp add: conversionFailed_def)

lemma runTick_capturing:
  assumes "capturing t s"
  shows "capturing t (runTick t out s)
         \<and> sentFrames (runTick t out s) = sentFrames s @ framesOf [out]
         \<and> fired (runTick t out s) = fired s
         \<and> connection (runTick t out s) = connection s
         \<and> timers (runTick t out s) = timers s"
proof -
  from assms obtain v c where "videoRef s = Some v" "canvasRef s = Some ()"
    "liveApiRef s = Some c" "t \<in> timers s"
    by (auto simp: capturing_def)
  then show ?thesis
    by (cases out)
       (simp_all add: capturing_def runTick_def run_def tick_def pending_def blobCallback_def
          frameEncoded_def conversionFailed_def framesOf_def sentFrames_def sendFrame_def
          nth_append)
qed

lemma runTick_noFramePending:
  assumes "capturing t s" and "noFramePending s"
  shows "noFramePending (runTick t out s)"
proof -
  from assms obtain v c where "videoRef s = Some v" "canvasRef s = Some ()"
    "liveApiRef s = Some c" "t \<in> timers s"
    by (auto simp: capturing_def)
  with assms(2) show ?thesis
    by (cases out)
       (simp_all add: noFramePending_def runTick_def run_def tick_def pending_def
          blobCallback_def frameEncoded_def conversionFailed_def sendFrame_def nth_append)
qed

lemma runTicks_snoc: "runTicks t (outs @ [out]) s = runTick t out (runTicks t outs s)"
  by (simp add: runTicks_def)

lemma runTicks_capturing:
  "capturing t s \<Longrightarrow>
     capturing t (runTicks t outs s)
     \<and> sentFrames (runTicks t outs s) = sentFrames s @ framesOf outs
     \<and> fired (runTicks t outs s) = fired s
     \<and> connection (runTicks t outs s) = connection s
     \<and> timers (runTicks t outs s) = timers s"
proof (induction outs rule: rev_induct)
  case Nil
  then show ?case by (simp add: runTicks_def framesOf_def)
next
  case (snoc out outs)
  from snoc have c: "capturing t (runTicks t outs s)" by simp
  have frames: "framesOf (outs @ [out]) = framesOf outs @ framesOf [out]"
    by (simp add: framesOf_def)
  from runTick_capturing [OF c, of out] snoc show ?case
    by (simp add: runTicks_snoc frames)
qed

lemma runTicks_noFramePending:
  "capturing t s \<Longrightarrow> noFramePending s \<Longrightarrow> noFramePending (runTicks t outs s)"
proof (induction outs rule: rev_induct)
  case Nil
  then show ?case by (simp add: runTicks_def)
next
  case (snoc out outs)
  from runTicks_capturing [OF snoc.prems(1), of outs]
  have "capturing t (runTicks t outs s)" by simp
  from runTick_noFramePending [OF this snoc.IH [OF snoc.prems]] show ?case
    by (simp add: runTicks_snoc)
qed

text \<open>
  C5, as the code has it. A tick at which capture, encoding or text conversion fails
  makes no \<^verbatim>\<open>sendVideoFrame\<close> call, invokes no callback, leaves the connection status and
  the timers as they are, and leaves nothing of its frame pending: after a throwing
  \<^verbatim>\<open>drawImage\<close> no \<^verbatim>\<open>toBlob\<close> is outstanding, and after a null blob or a rejected conversion
  the frame is finished. A null blob raises nothing at all. No event other than a
  successful conversion ever makes a \<^verbatim>\<open>sendVideoFrame\<close> call. And the loop does not halt:
  while the timer runs and its callback finds the video element, the canvas and the
  service, any sequence of ticks, each with its own fate, sends exactly the frames of the
  ticks that succeed, in order, with the timer still running and no frame pending at the
  end; the ticks before and after a failed one send theirs.
\<close>

theorem failed_tick_is_skipped:
  "(capturing t s \<longrightarrow>
      sentFrames (step (Tick t False) s) = sentFrames s
      \<and> jobs (step (Tick t False) s) = jobs s
      \<and> fired (step (Tick t False) s) = fired s
      \<and> connection (step (Tick t False) s) = connection s
      \<and> timers (step (Tick t False) s) = timers s)
   \<and> (pending j AwaitBlob s \<longrightarrow>
        step (BlobReady j None) s = s\<lparr>jobs := (jobs s)[j := JobDone]\<rparr>)
   \<and> (pending j AwaitBase64 s \<longrightarrow>
        sentFrames (step (Base64Rejected j) s) = sentFrames s
        \<and> jobs (step (Base64Rejected j) s) = (jobs s)[j := JobDone]
        \<and> fired (step (Base64Rejected j) s) = fired s
        \<and> connection (step (Base64Rejected j) s) = connection s
        \<and> timers (step (Base64Rejected j) s) = timers s)
   \<and> ((\<forall>k b. e \<noteq> Base64Resolved k b) \<longrightarrow> sentFrames (step e s) = sentFrames s)
   \<and> (capturing t s \<longrightarrow>
        sentFrames (runTicks t outs s) = sentFrames s @ framesOf outs
        \<and> fired (runTicks t outs s) = fired s
        \<and> connection (runTicks t outs s) = connection s
        \<and> t \<in> timers (runTicks t outs s))
   \<and> (capturing t s \<and> noFramePending s \<longrightarrow> noFramePending (runTicks t outs s))"
proof (intro conjI impI)
  assume c: "capturing t s"
  show "sentFrames (step (Tick t False) s) = sentFrames s"
    "jobs (step (Tick t False) s) = jobs s"
    "fired (step (Tick t False) s) = fired s"
    "connection (step (Tick t False) s) = connection s"
    "timers (step (Tick t False) s) = timers s"
    unfolding capture_failure [OF c] by (simp_all add: sentFrames_def)
next
  assume "pending j AwaitBlob s"
  then show "step (BlobReady j None) s = s\<lparr>jobs := (jobs s)[j := JobDone]\<rparr>"
    by (rule encode_failure)
next
  assume p: "pending j AwaitBase64 s"
  show "sentFrames (step (Base64Rejected j) s) = sentFrames s"
    "jobs (step (Base64Rejected j) s) = (jobs s)[j := JobDone]"
    "fired (step (Base64Rejected j) s) = fired s"
    "connection (step (Base64Rejected j) s) = connection s"
    "timers (step (Base64Rejected j) s) = timers s"
    unfolding conversion_failure [OF p] by (simp_all add: sentFrames_def)
next
  assume "\<forall>k b. e \<noteq> Base64Resolved k b"
  then show "sentFrames (step e s) = sentFrames s"
    by (rule step_sends_only_converted)
next
  assume c: "capturing t s"
  from runTicks_capturing [OF c, of outs] c
  show "sentFrames (runTicks t outs s) = sentFrames s @ framesOf outs"
    "fired (runTicks t outs s) = fired s"
    "connection (runTicks t outs s) = connection s"
    "t \<in> timers (runTicks t outs s)"
    by (simp_all add: capturing_def)
next
  assume "capturing t s \<and> noFramePending s"
  then show "noFramePending (runTicks t outs s)"
    by (simp add: runTicks_noFramePending)
qed

text \<open>
  Six ticks of the running session, the second, fourth and fifth failing in the three
  ways: the first, third and sixth frames are sent, no callback is invoked and no frame
  is left pending. And a null blob for a frame that is waiting for its \<^verbatim>\<open>toBlob\<close> callback
  only finishes the frame.
\<close>

theorem failed_tick_is_skipped_witness:
  "capturing 1 streaming \<and> noFramePending streaming
   \<and> sentFrames (runTicks 1 [Sent [1] ''first'', EncodeFailed, Sent [2] ''third'',
                              CaptureFailed, ConvertFailed [3], Sent [4] ''sixth''] streaming)
       = [''first'', ''third'', ''sixth'']
   \<and> fired (runTicks 1 [Sent [1] ''first'', EncodeFailed, Sent [2] ''third'',
                         CaptureFailed, ConvertFailed [3], Sent [4] ''sixth''] streaming) = []
   \<and> noFramePending (runTicks 1 [Sent [1] ''first'', EncodeFailed, Sent [2] ''third'',
                         CaptureFailed, ConvertFailed [3], Sent [4] ''sixth''] streaming)
   \<and> sentFrames (step (Tick 1 False) streaming) = []
   \<and> jobs (step (Tick 1 False) streaming) = []
   \<and> pending 0 AwaitBlob (step (Tick 1 True) streaming)
   \<and> jobs (step (BlobReady 0 None) (step (Tick 1 True) streaming)) = [JobDone]
   \<and> unhandled (step (BlobReady 0 None) (step (Tick 1 True) streaming)) = []"
proof -
  let ?outs = "[Sent [1] ''first'', EncodeFailed, Sent [2] ''third'',
                CaptureFailed, ConvertFailed [3], Sent [4] ''sixth'']"
  let ?s = "step (Tick 1 True) streaming"
  have c: "capturing 1 streaming" and n: "noFramePending streaming"
    and s: "sentFrames streaming = []" "fired streaming = []" "jobs streaming = []"
    by (simp_all add: streaming_eq capturing_def noFramePending_def sentFrames_def)
  have p: "pending 0 AwaitBlob ?s" and j: "jobs ?s = [AwaitBlob]" and u: "unhandled ?s = []"
    by (simp_all add: streaming_eq tick_def pending_def)
  note t = failed_tick_is_skipped [of 1 streaming 0 "Tick 1 False" ?outs]
  note t' = failed_tick_is_skipped [of 1 ?s 0 "Tick 1 False" "[]"]
  from t c n s have 1: "sentFrames (runTicks 1 ?outs streaming) = [''first'', ''third'', ''sixth'']"
    and 2: "fired (runTicks 1 ?outs streaming) = []"
    and 3: "noFramePending (runTicks 1 ?outs streaming)"
    and 4: "sentFrames (step (Tick 1 False) streaming) = []"
    and 5: "jobs (step (Tick 1 False) streaming) = []"
    by (simp_all add: framesOf_def)
  from t' p have "step (BlobReady 0 None) ?s = ?s\<lparr>jobs := (jobs ?s)[0 := JobDone]\<rparr>"
    by blast
  with j u have 6: "jobs (step (BlobReady 0 None) ?s) = [JobDone]"
    and 7: "unhandled (step (BlobReady 0 None) ?s) = []"
    by (simp_all del: step.simps)
  from c n p 1 2 3 4 5 6 7 show ?thesis by blast
qed

text \<open>
  C5, as stated, fails where it says that a failed tick raises no error. In the running
  session a tick whose \<^verbatim>\<open>drawImage\<close> throws, and a tick whose \<^verbatim>\<open>blobToBase64\<close> rejects, each
  end in a rejected promise that nothing handles; before them there was none.
\<close>

theorem failed_tick_raises:
  "unhandled streaming = []
   \<and> unhandled (runTick 1 CaptureFailed streaming) = [FromTimerCallback]
   \<and> unhandled (runTick 1 (ConvertFailed [3]) streaming) = [FromBlobCallback]"
  by (simp add: streaming_eq runTick_def run_def tick_def pending_def blobCallback_def
      conversionFailed_def)

section \<open>What the error callback leaves alone\<close>

lemma handleError_eq:
  "handleError err s
     = s\<lparr>connection := \<lparr>isConnected = False, isStreaming = False, error = Some err\<rparr>\<rparr>"
  by (simp add: handleError_def)

text \<open>
  C9. For every component state and every reason, \<^verbatim>\<open>handleError\<close> changes the connection
  status and nothing else: the three fields \<open>error\<close>, \<open>isConnected\<close> and \<open>isStreaming\<close> are
  set, the particle state and the timers are as before. So a timer that was capturing
  goes on capturing after the error and its ticks go on calling \<^verbatim>\<open>sendVideoFrame\<close>;
  once \<^verbatim>\<open>stopStream\<close> has run, the timer held in \<^verbatim>\<open>frameIntervalRef\<close> ticks no more.
\<close>

theorem handleError_leaves_timer_running:
  "handleError err s
     = s\<lparr>connection := \<lparr>isConnected = False, isStreaming = False, error = Some err\<rparr>\<rparr>
   \<and> (capturing t s \<longrightarrow>
        capturing t (handleError err s)
        \<and> sentFrames (runTicks t outs (handleError err s)) = sentFrames s @ framesOf outs)
   \<and> (frameIntervalRef s = Some t \<and> t \<noteq> 0 \<longrightarrow>
        step (Tick t drawOk) (stopStream (handleError err s)) = stopStream (handleError err s))"
proof (intro conjI impI)
  show "handleError err s
     = s\<lparr>connection := \<lparr>isConnected = False, isStreaming = False, error = Some err\<rparr>\<rparr>"
    by (rule handleError_eq)
next
  assume "capturing t s"
  then show c: "capturing t (handleError err s)"
    by (simp add: capturing_def handleError_def)
  from runTicks_capturing [OF c, of outs]
  show "sentFrames (runTicks t outs (handleError err s)) = sentFrames s @ framesOf outs"
    by (simp add: handleError_def sentFrames_def)
next
  assume "frameIntervalRef s = Some t \<and> t \<noteq> 0"
  then have "frameIntervalRef (handleError err s) = Some t" and "t \<noteq> 0"
    by (simp_all add: handleError_def)
  then have "t \<notin> timers (stopStream (handleError err s))"
    by (rule stopStream_cancels)
  then show "step (Tick t drawOk) (stopStream (handleError err s)) = stopStream (handleError err s)"
    by simp
qed

text \<open>
  An error during the running session: the status is reset with the reason, timer 1
  still runs and two more frames are sent; after \<^verbatim>\<open>stopStream\<close> a tick of timer 1 does
  nothing.
\<close>

theorem handleError_leaves_timer_running_witness:
  "capturing 1 streaming
   \<and> connection (handleError ''rate limited'' streaming)
       = \<lparr>isConnected = False, isStreaming = False, error = Some ''rate limited''\<rparr>
   \<and> timers (handleError ''rate limited'' streaming) = {1}
   \<and> sentFrames (runTicks 1 [Sent [1] ''first'', Sent [2] ''second'']
                    (handleError ''rate limited'' streaming))
       = [''first'', ''second'']
   \<and> frameIntervalRef streaming = Some 1
   \<and> step (Tick 1 True) (stopStream (handleError ''rate limited'' streaming))
       = stopStream (handleError ''rate limited'' streaming)"
proof -
  note t = handleError_leaves_timer_running
    [of "''rate limited''" streaming 1 "[Sent [1] ''first'', Sent [2] ''second'']" True]
  have c: "capturing 1 streaming" and r: "frameIntervalRef streaming = Some 1"
    and n: "sentFrames streaming = []" and m: "timers streaming = {1}"
    by (simp_all add: streaming_eq capturing_def sentFrames_def)
  from t have eq: "handleError ''rate limited'' streaming
      = streaming\<lparr>connection :=
          \<lparr>isConnected = False, isStreaming = False, error = Some ''rate limited''\<rparr>\<rparr>"
    by (rule conjunct1)
  have 1: "connection (handleError ''rate limited'' streaming)
       = \<lparr>isConnected = False, isStreaming = False, error = Some ''rate limited''\<rparr>"
    and 2: "timers (handleError ''rate limited'' streaming) = {1}"
    unfolding eq by (simp_all add: m)
  from t [THEN conjunct2, THEN conjunct1] c
  have "sentFrames (runTicks 1 [Sent [1] ''first'', Sent [2] ''second'']
                    (handleError ''rate limited'' streaming))
          = sentFrames streaming @ framesOf [Sent [1] ''first'', Sent [2] ''second'']"
    by blast
  then have 3: "sentFrames (runTicks 1 [Sent [1] ''first'', Sent [2] ''second'']
                    (handleError ''rate limited'' streaming)) = [''first'', ''second'']"
    by (simp add: n framesOf_def)
  from t [THEN conjunct2, THEN conjunct2] r
  have 4: "step (Tick 1 True) (stopStream (handleError ''rate limited'' streaming))
       = stopStream (handleError ''rate limited'' streaming)"
    by blast
  from c r 1 2 3 4 show ?thesis by blast
qed

section \<open>What stopping leaves alone\<close>

lemma invoke_OnError_particleState: "particleState (invoke (OnError e) s) = particleState s"
  by (simp add: invoke_def handleError_def)

lemma invokeAll_particleState:
  "(\<forall>u. OnStateUpdate u \<notin> set cbs) \<Longrightarrow> particleState (invokeAll cbs s) = particleState s"
proof (induction cbs rule: rev_induct)
  case Nil
  show ?case by (simp add: invokeAll_def)
next
  case (snoc cb cbs)
  then obtain e where "cb = OnError e" by (cases cb) auto
  with snoc show ?case by (simp add: invokeAll_def invoke_OnError_particleState)
qed

lemma step_particleState:
  assumes "\<forall>u. e \<noteq> Transport (Message (StateUpdate u))"
  shows "particleState (step e s) = particleState s"
proof (cases e)
  case (Transport ev)
  show ?thesis
  proof (cases "liveApiRef s")
    case None
    with Transport show ?thesis by (simp add: transport_def)
  next
    case (Some c)
    show ?thesis
    proof (cases ev)
      case Established
      with Transport Some show ?thesis by (simp add: transport_def)
    next
      case (Failed reason)
      with Transport Some show ?thesis
        by (simp add: transport_def failed_def invokeAll_particleState)
    next
      case (Message m)
      with assms Transport obtain reason where "m = ErrorMessage reason" by (cases m) auto
      with Transport Some Message show ?thesis
        by (simp add: transport_def deliver_def invokeAll_particleState)
    qed
  qed
qed (simp_all add: startStream_begin_def stopStream_particleState startStream_media_def
       startStream_connect_def startStream_connected_def startStream_catch_def
       invoke_OnError_particleState tick_def blobCallback_def frameEncoded_def
       conversionFailed_def Let_def
     split: option.split sum.split)

lemma run_particleState:
  "(\<forall>u. Transport (Message (StateUpdate u)) \<notin> set es) \<Longrightarrow>
     particleState (run es s) = particleState s"
proof (induction es rule: rev_induct)
  case Nil
  show ?case by (simp add: run_def)
next
  case (snoc e es)
  then have "\<forall>u. e \<noteq> Transport (Message (StateUpdate u))" by auto
  from step_particleState [OF this] snoc show ?case by (simp add: run_snoc)
qed

text \<open>
  C10. For every particle state current at the call, \<^verbatim>\<open>stopStream\<close> leaves it as it is;
  it is not reset to \<^verbatim>\<open>INITIAL_STATE\<close>. It also persists through whatever follows the
  teardown, restarts included, as long as no state update arrives from the service.
\<close>

theorem stopStream_keeps_particleState:
  "particleState (stopStream s) = particleState s
   \<and> ((\<forall>u. Transport (Message (StateUpdate u)) \<notin> set es) \<longrightarrow>
        particleState (run es (stopStream s)) = particleState s)"
  by (simp add: run_particleState stopStream_particleState)

text \<open>
  The shape becomes a heart during a session; the session is stopped and a second one
  started: the shape is still a heart, not the initial sphere.
\<close>

theorem stopStream_keeps_particleState_witness:
  "particleState (run [ClickStart, MediaResolved 1, PlayResolved 1, Transport Established,
                       ConnectResolved 1]
                  (stopStream (step (Transport (Message (StateUpdate [''shape'' \<mapsto> JStr ''heart''])))
                                 streaming))) ''shape''
     = Some (JStr ''heart'')
   \<and> INITIAL_STATE ''shape'' = Some (JStr ''sphere'')"
proof -
  let ?s = "step (Transport (Message (StateUpdate [''shape'' \<mapsto> JStr ''heart'']))) streaming"
  let ?es = "[ClickStart, MediaResolved 1, PlayResolved 1, Transport Established,
              ConnectResolved 1]"
  have h: "\<forall>u. Transport (Message (StateUpdate u)) \<notin> set ?es" by simp
  have p: "particleState ?s ''shape'' = Some (JStr ''heart'')"
    by (simp add: streaming_eq transport_def deliver_def invokeAll_def invoke_def
        handleStateUpdate_def spread2_def)
  from stopStream_keeps_particleState [of ?s ?es] h
  have "particleState (run ?es (stopStream ?s)) = particleState ?s" by blast
  with p show ?thesis by (simp add: INITIAL_STATE_def)
qed

section \<open>The constants of the capture pipeline\<close>

lemma invoke_calls: "calls (invoke cb s) = calls s"
  by (cases cb) (simp_all add: invoke_def handleError_def handleStateUpdate_def)

lemma invokeAll_calls: "calls (invokeAll cbs s) = calls s"
  by (induction cbs rule: rev_induct) (simp_all add: invokeAll_def invoke_calls)

lemma step_calls: "\<exists>new. calls (step e s) = calls s @ new \<and> list_all prescribed new"
proof (cases e)
  case (Transport ev)
  then show ?thesis
    by (cases ev; cases "liveApiRef s") (simp_all add: transport_def invokeAll_calls)
next
  case ClickStart
  then show ?thesis by (simp add: startStream_begin_def prescribed_def)
next
  case ClickStop
  then show ?thesis by (simp add: stopStream_def Let_def split: option.split)
next
  case (MediaResolved i)
  then show ?thesis
    by (simp add: startStream_media_def startStream_connect_def Let_def prescribed_def
        split: option.split)
next
  case (ConnectResolved i)
  then show ?thesis by (simp add: startStream_connected_def Let_def prescribed_def)
next
  case (Tick t drawOk)
  then show ?thesis by (simp add: tick_def Let_def prescribed_def split: option.split)
next
  case (BlobReady j b)
  then show ?thesis by (simp add: blobCallback_def prescribed_def split: option.split)
next
  case (Base64Resolved j b)
  then show ?thesis
    by (simp add: frameEncoded_def prescribed_def split: option.split sum.split)
qed (simp_all add: startStream_catch_def startStream_connect_def invoke_calls
       conversionFailed_def)

lemma run_calls: "\<exists>new. calls (run es s) = calls s @ new \<and> list_all prescribed new"
proof (induction es rule: rev_induct)
  case Nil
  show ?case by (simp add: run_def)
next
  case (snoc e es)
  then obtain new where 1: "calls (run es s) = calls s @ new" and 2: "list_all prescribed new"
    by blast
  from step_calls [of e "run es s"] obtain new'
    where 3: "calls (step e (run es s)) = calls (run es s) @ new'"
      and 4: "list_all prescribed new'"
    by blast
  from 1 2 3 4 have "calls (run (es @ [e]) s) = calls s @ (new @ new')
      \<and> list_all prescribed (new @ new')"
    by (simp add: run_snoc)
  then show ?case by blast
qed

text \<open>
  C8. From every state of the component and through every sequence of events, each new
  \<^verbatim>\<open>getUserMedia\<close> call asks for 320 by 240, each new \<^verbatim>\<open>setInterval\<close> has period 500, each
  new \<^verbatim>\<open>drawImage\<close> draws 320 by 240 and each new \<^verbatim>\<open>toBlob\<close> encodes JPEG at quality 0.6:
  nothing in the state or in the events can change these numbers.
\<close>

theorem capture_constants_fixed:
  "list_all prescribed (drop (length (calls s)) (calls (run es s)))"
proof -
  from run_calls [of es s] obtain new
    where "calls (run es s) = calls s @ new" and "list_all prescribed new"
    by blast
  then show ?thesis by simp
qed

text \<open>
  The calls of a started session and its first tick.
\<close>

theorem capture_constants_fixed_witness:
  "calls (run (startedSession @ [Tick 1 True]) mounted)
     = [GetUserMedia 320 240 True, Play, SetInterval 500, DrawImage 0 0 320 240,
        ToBlob ''image/jpeg'' 0.6]
   \<and> list_all prescribed (calls (run (startedSession @ [Tick 1 True]) mounted))"
proof -
  have "run (startedSession @ [Tick 1 True]) mounted = step (Tick 1 True) streaming"
    by (simp add: run_snoc streaming_def)
  then have c: "calls (run (startedSession @ [Tick 1 True]) mounted)
     = [GetUserMedia 320 240 True, Play, SetInterval 500, DrawImage 0 0 320 240,
        ToBlob ''image/jpeg'' 0.6]"
    by (simp add: streaming_eq tick_def)
  from capture_constants_fixed [of mounted "startedSession @ [Tick 1 True]"]
  have "list_all prescribed (calls (run (startedSession @ [Tick 1 True]) mounted))"
    by (simp add: mounted_def)
  with c show ?thesis by blast
qed

section \<open>Failures while starting\<close>

lemma startStream_catch_eq:
  "startStream_catch i err s
     = s\<lparr>tasks := (tasks s)[i := Finished],
         fired := fired s @ [OnError (errorText err)],
         connection := \<lparr>isConnected = False, isStreaming = False,
                         error = Some (errorText err)\<rparr>\<rparr>"
  by (simp add: startStream_catch_def invoke_def handleError_def)

lemma startStream_catch_done:
  "i < length (tasks s) \<Longrightarrow>
     step (ConnectResolved i) (startStream_catch i err s) = startStream_catch i err s"
  by (simp add: startStream_catch_eq awaiting_def)

text \<open>
  C6. Whichever \<^verbatim>\<open>await\<close> of a \<^verbatim>\<open>startStream\<close> invocation rejects (the camera, the video
  element or \<^verbatim>\<open>connect()\<close>), the invocation calls the error callback once, with the
  message of the rejection, or with \<^verbatim>\<open>'Failed to access camera'\<close> when the message is
  missing or empty; afterwards \<open>error\<close> holds that text, \<open>isConnected\<close> and \<open>isStreaming\<close>
  are false, the handling itself has not touched the session client, and the invocation
  is over: a later resolution of \<^verbatim>\<open>connect()\<close> can no longer make it set \<open>isConnected\<close>.
\<close>

theorem startStream_failure_reported:
  assumes "(awaiting i AwaitMedia s \<and> e = MediaRejected i err)
           \<or> (awaiting i AwaitPlay s \<and> e = PlayRejected i err)
           \<or> (awaiting i AwaitConnect s \<and> e = ConnectRejected i err)"
  shows "fired (step e s) = fired s @ [OnError (errorText err)]
         \<and> connection (step e s)
             = \<lparr>isConnected = False, isStreaming = False, error = Some (errorText err)\<rparr>
         \<and> errorText err
             = (case message err of
                  None \<Rightarrow> ''Failed to access camera''
                | Some m \<Rightarrow> if m = [] then ''Failed to access camera'' else m)
         \<and> liveApiRef (step e s) = liveApiRef s
         \<and> step (ConnectResolved i) (step e s) = step e s"
proof -
  from assms have len: "i < length (tasks s)" by (auto simp: awaiting_def)
  from assms have eq: "step e s = startStream_catch i err s" by auto
  have fin: "step (ConnectResolved i) (step e s) = step e s"
    unfolding eq by (rule startStream_catch_done [OF len])
  have rest: "fired (step e s) = fired s @ [OnError (errorText err)]
      \<and> connection (step e s)
          = \<lparr>isConnected = False, isStreaming = False, error = Some (errorText err)\<rparr>
      \<and> liveApiRef (step e s) = liveApiRef s"
    unfolding eq by (simp add: startStream_catch_eq)
  have "errorText err
          = (case message err of
               None \<Rightarrow> ''Failed to access camera''
             | Some m \<Rightarrow> if m = [] then ''Failed to access camera'' else m)"
    by (simp add: errorText_def)
  with fin rest show ?thesis by blast
qed

text \<open>
  \<^verbatim>\<open>connect()\<close> rejects with "permission denied"; and the camera is refused with no
  message at all, in which case the client is still the fresh, Idle one.
\<close>

theorem startStream_failure_reported_witness:
  "awaiting 0 AwaitConnect (run [ClickStart, MediaResolved 0, PlayResolved 0] mounted)
   \<and> fired (step (ConnectRejected 0 \<lparr>message = Some ''permission denied''\<rparr>)
              (run [ClickStart, MediaResolved 0, PlayResolved 0] mounted))
       = [OnError ''permission denied'']
   \<and> connection (step (ConnectRejected 0 \<lparr>message = Some ''permission denied''\<rparr>)
                   (run [ClickStart, MediaResolved 0, PlayResolved 0] mounted))
       = \<lparr>isConnected = False, isStreaming = False, error = Some ''permission denied''\<rparr>
   \<and> awaiting 0 AwaitMedia (step ClickStart mounted)
   \<and> connection (step (MediaRejected 0 \<lparr>message = None\<rparr>) (step ClickStart mounted))
       = \<lparr>isConnected = False, isStreaming = False, error = Some ''Failed to access camera''\<rparr>
   \<and> liveApiRef (step (MediaRejected 0 \<lparr>message = None\<rparr>) (step ClickStart mounted))
       = Some newClient"
proof -
  let ?s = "run [ClickStart, MediaResolved 0, PlayResolved 0] mounted"
  let ?e = "ConnectRejected 0 \<lparr>message = Some ''permission denied''\<rparr>"
  have a: "awaiting 0 AwaitConnect ?s" and f: "fired ?s = []"
    by (simp_all add: run_def mounted_def startStream_begin_def awaiting_def
        startStream_media_def startStream_connect_def Let_def)
  then have "(awaiting 0 AwaitMedia ?s
              \<and> ?e = MediaRejected 0 \<lparr>message = Some ''permission denied''\<rparr>)
           \<or> (awaiting 0 AwaitPlay ?s
              \<and> ?e = PlayRejected 0 \<lparr>message = Some ''permission denied''\<rparr>)
           \<or> (awaiting 0 AwaitConnect ?s
              \<and> ?e = ConnectRejected 0 \<lparr>message = Some ''permission denied''\<rparr>)"
    by simp
  note 1 = startStream_failure_reported [OF this]
  let ?s' = "step ClickStart mounted"
  let ?e' = "MediaRejected 0 \<lparr>message = None\<rparr>"
  have a': "awaiting 0 AwaitMedia ?s'" and l: "liveApiRef ?s' = Some newClient"
    by (simp_all add: mounted_def startStream_begin_def awaiting_def)
  then have "(awaiting 0 AwaitMedia ?s' \<and> ?e' = MediaRejected 0 \<lparr>message = None\<rparr>)
           \<or> (awaiting 0 AwaitPlay ?s' \<and> ?e' = PlayRejected 0 \<lparr>message = None\<rparr>)
           \<or> (awaiting 0 AwaitConnect ?s' \<and> ?e' = ConnectRejected 0 \<lparr>message = None\<rparr>)"
    by simp
  note 2 = startStream_failure_reported [OF this]
  from 1 f a have "fired (step ?e ?s) = [OnError ''permission denied'']"
    and "connection (step ?e ?s)
          = \<lparr>isConnected = False, isStreaming = False, error = Some ''permission denied''\<rparr>"
    by simp_all
  moreover from 2 l have "connection (step ?e' ?s')
          = \<lparr>isConnected = False, isStreaming = False, error = Some ''Failed to access camera''\<rparr>"
    and "liveApiRef (step ?e' ?s') = Some newClient"
    by simp_all
  ultimately show ?thesis using a a' by blast
qed

section \<open>The connected flag\<close>

lemma invoke_OnError_connection:
  "isConnected (connection (invoke (OnError e) s)) = False"
  "liveApiRef (invoke (OnError e) s) = liveApiRef s"
  by (simp_all add: invoke_def handleError_def)

lemma invoke_OnStateUpdate_connection:
  "connection (invoke (OnStateUpdate u) s) = connection s"
  "liveApiRef (invoke (OnStateUpdate u) s) = liveApiRef s"
  by (simp_all add: invoke_def handleStateUpdate_def)

lemma step_connected:
  assumes "liveApiRef s \<noteq> None" and "isConnected (connection s) \<longrightarrow> sessionActive s"
    and "resolvesWhileActive [e] s"
  shows "liveApiRef (step e s) \<noteq> None
         \<and> (isConnected (connection (step e s)) \<longrightarrow> sessionActive (step e s))"
proof -
  from assms(1) obtain c where c: "liveApiRef s = Some c" by auto
  with assms(2) have a: "isConnected (connection s) \<longrightarrow> phase c = Active"
    by (simp add: sessionActive_def)
  show ?thesis
  proof (cases e)
    case (Transport ev)
    show ?thesis
    proof (cases ev)
      case Established
      with Transport c a show ?thesis
        by (simp add: transport_def established_def sessionActive_def)
    next
      case (Failed reason)
      with Transport c a show ?thesis
        by (simp add: transport_def failed_def sessionActive_def invokeAll_def
            invoke_OnError_connection)
    next
      case (Message m)
      with Transport c a show ?thesis
        by (cases m)
           (simp_all add: transport_def deliver_def sessionActive_def invokeAll_def
              invoke_OnError_connection invoke_OnStateUpdate_connection)
    qed
  next
    case ClickStart
    with c a show ?thesis by (simp add: startStream_begin_def sessionActive_def)
  next
    case ClickStop
    with c a show ?thesis
      by (simp add: stopStream_connection stopStream_liveApiRef sessionActive_def)
  next
    case (MediaResolved i)
    with c a show ?thesis
      by (simp add: startStream_media_def startStream_connect_def connect_def
          sessionActive_def Let_def split: option.split)
  next
    case (PlayResolved i)
    with c a show ?thesis
      by (simp add: startStream_connect_def connect_def sessionActive_def)
  next
    case (ConnectResolved i)
    with c a assms(3) show ?thesis
      by (simp add: startStream_connected_def connectResolves_def sessionActive_def Let_def
          split: if_splits)
  next
    case (Tick t drawOk)
    with c a show ?thesis
      by (simp add: tick_def sessionActive_def Let_def split: option.split)
  next
    case (BlobReady j b)
    with c a show ?thesis
      by (simp add: blobCallback_def sessionActive_def split: option.split)
  next
    case (Base64Resolved j b)
    with c a show ?thesis
      by (simp add: frameEncoded_def sendFrame_def sessionActive_def)
  next
    case (Base64Rejected j)
    with c a show ?thesis by (simp add: sessionActive_def conversionFailed_def)
  qed (use c a in \<open>simp_all add: startStream_catch_eq sessionActive_def\<close>)
qed

lemma run_Cons: "run (e # es) s = run es (step e s)"
  by (simp add: run_def)

lemma run_connected:
  "liveApiRef s \<noteq> None \<Longrightarrow> (isConnected (connection s) \<longrightarrow> sessionActive s) \<Longrightarrow>
   resolvesWhileActive es s \<Longrightarrow>
     liveApiRef (run es s) \<noteq> None
     \<and> (isConnected (connection (run es s)) \<longrightarrow> sessionActive (run es s))"
proof (induction es arbitrary: s)
  case Nil
  then show ?case by (simp add: run_def)
next
  case (Cons e es)
  from Cons.prems(3) have one: "resolvesWhileActive [e] s"
    and rest: "resolvesWhileActive es (step e s)"
    by simp_all
  from step_connected [OF Cons.prems(1,2) one]
  have "liveApiRef (step e s) \<noteq> None"
    and "isConnected (connection (step e s)) \<longrightarrow> sessionActive (step e s)"
    by simp_all
  from Cons.IH [OF this rest] show ?case by (simp add: run_Cons)
qed

text \<open>
  C4, as the code has it. After every call of \<^verbatim>\<open>handleError\<close> and after every call of
  \<^verbatim>\<open>stopStream\<close>, \<open>isConnected\<close> is false. In every state the mounted component reaches
  through events in which each awaited \<^verbatim>\<open>connect()\<close> resolves at a moment when the session
  client is Active, \<open>isConnected\<close> is true only if the client is Active, that is, holds an
  established handle.
\<close>

theorem isConnected_only_while_active:
  "\<not> isConnected (connection (handleError err s))
   \<and> \<not> isConnected (connection (stopStream s))
   \<and> (resolvesWhileActive es mounted \<longrightarrow>
        isConnected (connection (run es mounted)) \<longrightarrow> sessionActive (run es mounted))"
proof -
  have "liveApiRef mounted \<noteq> None"
    and "isConnected (connection mounted) \<longrightarrow> sessionActive mounted"
    by (simp_all add: mounted_def)
  from run_connected [OF this, of es] show ?thesis
    by (simp add: handleError_def stopStream_connection)
qed

text \<open>
  After an undisturbed start, whose \<^verbatim>\<open>connect()\<close> resolves once the handle is established,
  \<open>isConnected\<close> is true and the client is Active.
\<close>

theorem isConnected_only_while_active_witness:
  "resolvesWhileActive startedSession mounted
   \<and> isConnected (connection (run startedSession mounted))
   \<and> sessionActive (run startedSession mounted)"
proof -
  have r: "resolvesWhileActive startedSession mounted"
    by (simp add: startedSession_def mounted_def newClient_def startStream_begin_def
        awaiting_def startStream_media_def startStream_connect_def connect_def transport_def
        established_def connectResolves_def Let_def)
  have c: "isConnected (connection (run startedSession mounted))"
    using streaming_eq by (simp add: streaming_def)
  with r isConnected_only_while_active [of "''x''" mounted startedSession] show ?thesis
    by blast
qed

text \<open>
  C4, as stated, fails when a \<^verbatim>\<open>connect()\<close> that is in flight resolves after the session
  was stopped. The Start button is clicked, the camera and the video are ready and
  \<^verbatim>\<open>connect()\<close> is awaited; the Stop button is clicked, and \<^verbatim>\<open>stopStream\<close> disconnects the
  client, which is Closed from then on. When the promise of \<^verbatim>\<open>connect()\<close> resolves all the
  same, line 67 sets \<open>isConnected\<close> without looking at the client.
\<close>

theorem isConnected_without_session:
  "clientPhase (run [ClickStart, MediaResolved 0, PlayResolved 0] mounted) = Some Connecting
   \<and> clientPhase (run [ClickStart, MediaResolved 0, PlayResolved 0, ClickStop] mounted)
       = Some Closed
   \<and> \<not> isConnected (connection
         (run [ClickStart, MediaResolved 0, PlayResolved 0, ClickStop] mounted))
   \<and> isConnected (connection
         (run [ClickStart, MediaResolved 0, PlayResolved 0, ClickStop, ConnectResolved 0]
            mounted))
   \<and> \<not> sessionActive
         (run [ClickStart, MediaResolved 0, PlayResolved 0, ClickStop, ConnectResolved 0]
            mounted)"
  by (simp add: run_def mounted_def newClient_def startStream_begin_def awaiting_def
      startStream_media_def startStream_connect_def connect_def stopStream_def disconnect_def
      startStream_connected_def clientPhase_def sessionActive_def Let_def)

section \<open>Callbacks after stopping\<close>

lemma settled_not_awaiting: "settled s \<Longrightarrow> p \<noteq> Finished \<Longrightarrow> \<not> awaiting i p s"
  by (auto simp: settled_def awaiting_def list_all_length)

lemma sessionActive_phase: "sessionActive s = (clientPhase s = Some Active)"
  by (cases "liveApiRef s") (simp_all add: sessionActive_def clientPhase_def)

lemma stopStream_clientPhase:
  "clientPhase (stopStream s) \<noteq> Some Active \<and> clientPhase (stopStream s) \<noteq> Some Connecting"
  by (cases "liveApiRef s") (simp_all add: clientPhase_def stopStream_liveApiRef disconnect_phase)

lemma tick_frame:
  "tasks (tick drawOk s) = tasks s \<and> fired (tick drawOk s) = fired s
   \<and> clientPhase (tick drawOk s) = clientPhase s"
  by (simp add: tick_def clientPhase_def Let_def split: option.split)

lemma blobCallback_frame:
  "tasks (blobCallback j b s) = tasks s \<and> fired (blobCallback j b s) = fired s
   \<and> clientPhase (blobCallback j b s) = clientPhase s"
  by (simp add: blobCallback_def clientPhase_def split: option.split)

lemma frameEncoded_frame:
  "tasks (frameEncoded j b s) = tasks s \<and> fired (frameEncoded j b s) = fired s
   \<and> clientPhase (frameEncoded j b s) = clientPhase s"
  by (simp add: frameEncoded_def sendFrame_def clientPhase_def split: option.split)

lemma transport_torn_down:
  assumes "clientPhase s \<noteq> Some Active" and "clientPhase s \<noteq> Some Connecting"
  shows "transport ev s = s"
proof (cases "liveApiRef s")
  case None
  then show ?thesis by (simp add: transport_def)
next
  case (Some c)
  with assms have "phase c \<noteq> Active" "phase c \<noteq> Connecting"
    by (simp_all add: clientPhase_def)
  with Some show ?thesis
    by (cases ev)
       (simp_all add: transport_def established_def failed_def deliver_def invokeAll_def)
qed

lemma step_torn_down:
  assumes "settled s" and "clientPhase s \<noteq> Some Active"
    and "clientPhase s \<noteq> Some Connecting" and "e \<noteq> ClickStart"
  shows "settled (step e s) \<and> clientPhase (step e s) \<noteq> Some Active
         \<and> clientPhase (step e s) \<noteq> Some Connecting
         \<and> fired (step e s) = fired s"
proof (cases e)
  case (Transport ev)
  with assms transport_torn_down [of s ev] show ?thesis by simp
next
  case ClickStop
  with assms stopStream_clientPhase [of s] show ?thesis
    by (simp add: stopStream_fired settled_def stopStream_tasks)
next
  case (Tick t drawOk)
  with assms show ?thesis by (simp add: tick_frame settled_def)
next
  case (BlobReady j b)
  with assms show ?thesis by (simp add: blobCallback_frame settled_def)
next
  case (Base64Resolved j b)
  with assms show ?thesis by (simp add: frameEncoded_frame settled_def)
next
  case (Base64Rejected j)
  with assms show ?thesis by (simp add: settled_def clientPhase_def conversionFailed_def)
qed (use assms in \<open>simp_all add: settled_not_awaiting\<close>)

lemma run_torn_down:
  assumes "settled s" and "clientPhase s \<noteq> Some Active"
    and "clientPhase s \<noteq> Some Connecting"
  shows "ClickStart \<notin> set es \<Longrightarrow>
         settled (run es s) \<and> clientPhase (run es s) \<noteq> Some Active
         \<and> clientPhase (run es s) \<noteq> Some Connecting
         \<and> fired (run es s) = fired s"
proof (induction es rule: rev_induct)
  case Nil
  with assms show ?case by (simp add: run_def)
next
  case (snoc e es)
  then have ih: "settled (run es s)" "clientPhase (run es s) \<noteq> Some Active"
      "clientPhase (run es s) \<noteq> Some Connecting"
      "fired (run es s) = fired s" and e: "e \<noteq> ClickStart"
    by auto
  from step_torn_down [OF ih(1-3) e] ih(4) show ?case by (simp add: run_snoc)
qed

text \<open>
  C3, as the code has it. When no \<^verbatim>\<open>startStream\<close> invocation is waiting at an \<^verbatim>\<open>await\<close>
  at the moment \<^verbatim>\<open>stopStream\<close> is called, then after \<^verbatim>\<open>stopStream\<close> has returned neither
  callback is invoked again as long as \<^verbatim>\<open>startStream\<close> is not called anew: not by inbound
  messages or transport failures, not by ticks, not by frames that were in flight.
\<close>

theorem no_callback_after_stopStream:
  assumes "settled s" and "ClickStart \<notin> set es"
  shows "fired (run es (stopStream s)) = fired s"
proof -
  from assms(1) have "settled (stopStream s)"
    by (simp add: settled_def stopStream_tasks)
  from run_torn_down [OF this stopStream_clientPhase [THEN conjunct1]
      stopStream_clientPhase [THEN conjunct2] assms(2)]
  show ?thesis by (simp add: stopStream_fired)
qed

text \<open>
  A session that has received one update is stopped while a frame is being converted.
  The late frame, two late messages, a transport failure, a tick and a second stop
  follow: the update received before the stop remains the only callback.
\<close>

theorem no_callback_after_stopStream_witness:
  "settled (run [Transport (Message (StateUpdate [''shape'' \<mapsto> JStr ''heart''])),
                 Tick 1 True, BlobReady 0 (Some [7])] streaming)
   \<and> fired (run [Base64Resolved 0 ''late frame'',
                 Transport (Message (StateUpdate [''shape'' \<mapsto> JStr ''helix''])),
                 Transport (Message (ErrorMessage ''rate limited'')),
                 Transport (Failed ''socket closed''),
                 Tick 1 True, ClickStop]
            (stopStream (run [Transport (Message (StateUpdate [''shape'' \<mapsto> JStr ''heart''])),
                              Tick 1 True, BlobReady 0 (Some [7])] streaming)))
       = [OnStateUpdate [''shape'' \<mapsto> JStr ''heart'']]"
proof -
  let ?s = "run [Transport (Message (StateUpdate [''shape'' \<mapsto> JStr ''heart''])),
                 Tick 1 True, BlobReady 0 (Some [7])] streaming"
  let ?es = "[Base64Resolved 0 ''late frame'',
              Transport (Message (StateUpdate [''shape'' \<mapsto> JStr ''helix''])),
              Transport (Message (ErrorMessage ''rate limited'')),
              Transport (Failed ''socket closed''),
              Tick 1 True, ClickStop]"
  have s: "settled ?s" and f: "fired ?s = [OnStateUpdate [''shape'' \<mapsto> JStr ''heart'']]"
    by (simp_all add: streaming_eq run_def settled_def transport_def deliver_def invokeAll_def
        invoke_def handleStateUpdate_def tick_def pending_def blobCallback_def)
  have e: "ClickStart \<notin> set ?es" by simp
  from no_callback_after_stopStream [OF s e] f s show ?thesis by simp
qed

text \<open>
  C3, as stated, fails for a \<^verbatim>\<open>startStream\<close> invocation that is in flight. The Start
  button is clicked; while \<^verbatim>\<open>getUserMedia\<close> is pending the Stop button is clicked, which
  runs \<^verbatim>\<open>stopStream\<close>; no callback has been invoked so far. Then the user refuses the
  camera: the \<^verbatim>\<open>catch\<close> of the pending invocation calls \<^verbatim>\<open>handleError\<close>.
\<close>

theorem callback_after_stopStream:
  "step ClickStop (step ClickStart mounted) = stopStream (step ClickStart mounted)
   \<and> fired (stopStream (step ClickStart mounted)) = []
   \<and> fired (step (MediaRejected 0 \<lparr>message = Some ''Permission denied''\<rparr>)
              (stopStream (step ClickStart mounted)))
       = [OnError ''Permission denied'']"
  by (simp add: mounted_def startStream_begin_def stopStream_def awaiting_def
      startStream_catch_eq errorText_def)

end
